theory Spec2Isabelle
  imports Complex_Main "HOL-Library.Sublist" "HOL-Library.Multiset"
begin

section \<open>Python values\<close>

text \<open>
  A Python \<open>str\<close> is modelled as a \<open>string\<close>, one \<open>char\<close> per code point, so the
  texts of the model range over the code points 0 to 255. On these the character classes
  below are exactly the ones of Python 3: \<open>str.isspace\<close> and the regular expression
  class \<open>\s\<close> hold of the twelve characters of \<open>py_whitespace\<close>, \<open>\d\<close> of the ten
  ASCII digits, and \<open>str.lower\<close> maps one character to one character. The only character
  of the program's own literal texts outside this range is the em dash (U+2014), which is
  written as the three bytes of its UTF-8 encoding.
\<close>

definition em_dash :: string where
  "em_dash = [CHR 0xE2, CHR 0x80, CHR 0x94]"

definition py_whitespace :: "char list" where
  "py_whitespace = [CHR 0x09, CHR 0x0A, CHR 0x0B, CHR 0x0C, CHR 0x0D,
                    CHR 0x1C, CHR 0x1D, CHR 0x1E, CHR 0x1F, CHR 0x20, CHR 0x85, CHR 0xA0]"

definition isspace :: "char \<Rightarrow> bool" where
  "isspace c = (c \<in> set py_whitespace)"

definition isdigit :: "char \<Rightarrow> bool" where
  "isdigit c = (c \<in> set ''0123456789'')"

text \<open>\<open>str.lower\<close> on one character: A-Z, and the Latin-1 capitals 0xC0-0xDE except 0xD7.\<close>

definition lower_char :: "char \<Rightarrow> char" where
  "lower_char c =
     (let n = (of_char c :: nat) in
      if (65 \<le> n \<and> n \<le> 90) \<or> (192 \<le> n \<and> n \<le> 222 \<and> n \<noteq> 215)
      then char_of (n + 32) else c)"

text \<open>The same function on the eight bits of a character, for evaluation.\<close>

lemma lower_char_code [code]:
  "lower_char (Char b0 b1 b2 b3 b4 b5 b6 b7) =
     (if b6 \<and> \<not> b5 \<and>
         (if b7 then \<not> (b0 \<and> b1 \<and> b2 \<and> b4)
          else (b0 \<or> b1 \<or> b2 \<or> b3 \<or> b4) \<and> \<not> (b4 \<and> b3 \<and> (b2 \<or> (b1 \<and> b0))))
      then Char b0 b1 b2 b3 b4 True b6 b7 else Char b0 b1 b2 b3 b4 b5 b6 b7)"
  by (cases b0; cases b1; cases b2; cases b3; cases b4; cases b5; cases b6; cases b7;
      simp add: lower_char_def char_of_eq_iff)

definition lower :: "string \<Rightarrow> string" where
  "lower s = map lower_char s"

text \<open>\<open>str.strip()\<close>: leading and trailing whitespace removed.\<close>

definition lstrip :: "string \<Rightarrow> string" where
  "lstrip s = dropWhile isspace s"

definition rstrip :: "string \<Rightarrow> string" where
  "rstrip s = rev (dropWhile isspace (rev s))"

definition strip :: "string \<Rightarrow> string" where
  "strip s = rstrip (lstrip s)"

text \<open>\<open>str.split()\<close> with no separator: the maximal runs of non-whitespace characters.\<close>

fun split_ws :: "string \<Rightarrow> string \<Rightarrow> string list" where
  "split_ws cur [] = (if cur = [] then [] else [cur])"
| "split_ws cur (c # cs) =
     (if isspace c then (if cur = [] then split_ws [] cs else cur # split_ws [] cs)
      else split_ws (cur @ [c]) cs)"

definition split :: "string \<Rightarrow> string list" where
  "split s = split_ws [] s"

text \<open>\<open>str.split(sep)\<close> with a one-character separator: the pieces between the separators.\<close>

fun split_on :: "char \<Rightarrow> string \<Rightarrow> string \<Rightarrow> string list" where
  "split_on sep cur [] = [cur]"
| "split_on sep cur (c # cs) =
     (if c = sep then cur # split_on sep [] cs else split_on sep (cur @ [c]) cs)"

text \<open>\<open>w in s\<close> on strings: \<open>w\<close> occurs in \<open>s\<close> as a contiguous piece.\<close>

fun contains :: "string \<Rightarrow> string \<Rightarrow> bool" where
  "contains [] w = (w = [])"
| "contains (c # cs) w = (prefix w (c # cs) \<or> contains cs w)"

text \<open>\<open>xs[:k]\<close> for an integer \<open>k\<close>: a negative \<open>k\<close> counts from the end.\<close>

definition slice_to :: "'a list \<Rightarrow> int \<Rightarrow> 'a list" where
  "slice_to xs k = (if 0 \<le> k then take (nat k) xs else take (length xs - nat (- k)) xs)"

text \<open>\<open>xs[-k:]\<close> for a positive \<open>k\<close>: the last \<open>k\<close> elements.\<close>

definition last_n :: "nat \<Rightarrow> 'a list \<Rightarrow> 'a list" where
  "last_n k xs = drop (length xs - k) xs"

text \<open>The decimal digits of a natural number, as \<open>str(n)\<close> writes them.\<close>

definition digit_char :: "nat \<Rightarrow> char" where
  "digit_char d = char_of (48 + d)"

function str_nat :: "nat \<Rightarrow> string" where
  "str_nat n = (if n < 10 then [digit_char n] else str_nat (n div 10) @ [digit_char (n mod 10)])"
  by pat_completeness auto
termination
  by (relation "measure id") auto

declare str_nat.simps [simp del]

text \<open>
  The values that \<open>json.loads\<close> produces and \<open>json.dumps\<close> accepts. A Python \<open>dict\<close>
  with string keys is an association list in insertion order; a lookup takes the first
  pair with the key, and the program never stores a key twice.
\<close>

datatype pyfloat = Finite int int | Infinite bool | NaN

datatype json =
    JNull
  | JBool bool
  | JInt int
  | JFloat pyfloat
  | JStr string
  | JArr "json list"
  | JObj "(string \<times> json) list"

type_synonym dict = "(string \<times> json) list"

text \<open>The exceptions of the program, each with the text that \<open>str(e)\<close> gives.\<close>

datatype exn =
    JSONDecodeError string
  | AttributeError string
  | KeyError string
  | TypeError string
  | OtherError string

fun str_exn :: "exn \<Rightarrow> string" where
  "str_exn (JSONDecodeError m) = m"
| "str_exn (AttributeError m) = m"
| "str_exn (KeyError k) = [CHR 0x27] @ k @ [CHR 0x27]"
| "str_exn (TypeError m) = m"
| "str_exn (OtherError m) = m"

text \<open>\<open>d[k]\<close> raises \<open>KeyError\<close> on a missing key, \<open>d.get(k, v)\<close> answers \<open>v\<close>.\<close>

definition getitem :: "dict \<Rightarrow> string \<Rightarrow> exn + json" where
  "getitem d k = (case map_of d k of None \<Rightarrow> Inl (KeyError k) | Some v \<Rightarrow> Inr v)"

definition get :: "dict \<Rightarrow> string \<Rightarrow> json \<Rightarrow> json" where
  "get d k v = (case map_of d k of None \<Rightarrow> v | Some w \<Rightarrow> w)"

text \<open>\<open>d.setdefault(k, v)\<close>: a missing key is added at the end, a present one is kept.\<close>

definition setdefault :: "string \<Rightarrow> json \<Rightarrow> dict \<Rightarrow> dict" where
  "setdefault k v d = (if k \<in> fst ` set d then d else d @ [(k, v)])"

text \<open>The name Python prints for the type of a value.\<close>

fun type_name :: "json \<Rightarrow> string" where
  "type_name JNull = ''NoneType''"
| "type_name (JBool _) = ''bool''"
| "type_name (JInt _) = ''int''"
| "type_name (JFloat _) = ''float''"
| "type_name (JStr _) = ''str''"
| "type_name (JArr _) = ''list''"
| "type_name (JObj _) = ''dict''"

section \<open>Regular expressions of the pattern registry\<close>

text \<open>
  The registry's patterns use literals, alternation, concatenation and a star on a
  character class only, all compiled with \<open>re.IGNORECASE\<close> and without groups.
  \<open>rx_match r s\<close> lists what can remain of \<open>s\<close> after a match of \<open>r\<close> at its start, in the
  order in which Python's backtracking matcher tries them: the left alternative first, the
  longest repetition first. The head of the list is the match that \<open>re\<close> reports.
\<close>

datatype cls = Space | Digit | Digit19 | Dot

fun in_cls :: "cls \<Rightarrow> char \<Rightarrow> bool" where
  "in_cls Space c = isspace c"
| "in_cls Digit c = isdigit c"
| "in_cls Digit19 c = (c \<in> set ''123456789'')"
| "in_cls Dot c = (c \<noteq> CHR 0x0A)"

datatype rx =
    Lit string
  | One cls
  | Star cls
  | Seq rx rx
  | Alt rx rx

text \<open>
  A literal under \<open>re.IGNORECASE\<close>: character by character, both sides lowercased; the
  answer is what remains of \<open>s\<close> after the literal, if \<open>s\<close> starts with it.
\<close>

fun lit_rest :: "string \<Rightarrow> string \<Rightarrow> string option" where
  "lit_rest [] s = Some s"
| "lit_rest (p # ps) [] = None"
| "lit_rest (p # ps) (c # cs) =
     (if lower_char c = lower_char p then lit_rest ps cs else None)"

definition lit_match :: "string \<Rightarrow> string \<Rightarrow> string list" where
  "lit_match l s = (case lit_rest l s of None \<Rightarrow> [] | Some rest \<Rightarrow> [rest])"

fun star_match :: "cls \<Rightarrow> string \<Rightarrow> string list" where
  "star_match k [] = [[]]"
| "star_match k (c # cs) = (if in_cls k c then star_match k cs @ [c # cs] else [c # cs])"

fun rx_match :: "rx \<Rightarrow> string \<Rightarrow> string list" where
  "rx_match (Lit l) s = lit_match l s"
| "rx_match (One k) s = (case s of [] \<Rightarrow> [] | c # cs \<Rightarrow> if in_cls k c then [cs] else [])"
| "rx_match (Star k) s = star_match k s"
| "rx_match (Seq a b) s = concat (map (rx_match b) (rx_match a s))"
| "rx_match (Alt a b) s = rx_match a s @ rx_match b s"

text \<open>
  \<open>pattern.findall(text)\<close>: the matches found from left to right, each search starting
  where the last match ended; \<open>skip\<close> counts the characters of the last match that are
  still to be passed over.
\<close>

fun findall_from :: "rx \<Rightarrow> nat \<Rightarrow> string \<Rightarrow> string list" where
  "findall_from r skip [] = (if rx_match r [] = [] then [] else [[]])"
| "findall_from r skip (c # cs) =
     (if 0 < skip then findall_from r (skip - 1) cs
      else (case rx_match r (c # cs) of
              [] \<Rightarrow> findall_from r 0 cs
            | rest # _ \<Rightarrow>
                (let n = length (c # cs) - length rest
                 in take n (c # cs) # findall_from r (n - 1) cs)))"

definition findall :: "rx \<Rightarrow> string \<Rightarrow> string list" where
  "findall r text = findall_from r 0 text"

text \<open>\<open>a b c\<close> in sequence, \<open>a|b|c\<close> as alternatives, \<open>\s*\<close> between two words.\<close>

fun seqs :: "rx list \<Rightarrow> rx" where
  "seqs [] = Lit []"
| "seqs [r] = r"
| "seqs (r # rs) = Seq r (seqs rs)"

fun alts :: "rx list \<Rightarrow> rx" where
  "alts [] = Lit []"
| "alts [r] = r"
| "alts (r # rs) = Alt r (alts rs)"

section \<open>The pattern registry (\<open>log_analyzer.py\<close>)\<close>

datatype Severity = CRITICAL | HIGH | MEDIUM | LOW | INFO

fun severity_value :: "Severity \<Rightarrow> string" where
  "severity_value CRITICAL = ''CRITICAL''"
| "severity_value HIGH = ''HIGH''"
| "severity_value MEDIUM = ''MEDIUM''"
| "severity_value LOW = ''LOW''"
| "severity_value INFO = ''INFO''"

datatype ErrorCategory =
    OOM_KILLED | CRASH_LOOP | IMAGE_PULL | CONFIG_ERROR | READINESS_PROBE | LIVENESS_PROBE
  | RESOURCE_QUOTA | PERMISSION_DENIED | TERRAFORM_STATE_LOCK | TERRAFORM_PROVIDER
  | CI_CD_FAILURE | NETWORK_ERROR | UNKNOWN

fun category_value :: "ErrorCategory \<Rightarrow> string" where
  "category_value OOM_KILLED = ''OOMKilled''"
| "category_value CRASH_LOOP = ''CrashLoopBackOff''"
| "category_value IMAGE_PULL = ''ImagePullBackOff''"
| "category_value CONFIG_ERROR = ''CreateContainerConfigError''"
| "category_value READINESS_PROBE = ''ReadinessProbeFailure''"
| "category_value LIVENESS_PROBE = ''LivenessProbeFailure''"
| "category_value RESOURCE_QUOTA = ''ResourceQuotaExceeded''"
| "category_value PERMISSION_DENIED = ''PermissionDenied''"
| "category_value TERRAFORM_STATE_LOCK = ''TerraformStateLock''"
| "category_value TERRAFORM_PROVIDER = ''TerraformProviderError''"
| "category_value CI_CD_FAILURE = ''CICDPipelineFailure''"
| "category_value NETWORK_ERROR = ''NetworkError''"
| "category_value UNKNOWN = ''Unknown''"

record entry =
  pattern :: rx
  category :: ErrorCategory
  severity :: Severity
  hint :: string

definition ERROR_PATTERNS :: "entry list" where
  "ERROR_PATTERNS = [
     \<lparr>pattern = Lit ''OOMKilled'',
      category = OOM_KILLED, severity = CRITICAL,
      hint = ''Container exceeded memory limits and was killed by the kernel OOM killer.''\<rparr>,
     \<lparr>pattern = Lit ''CrashLoopBackOff'',
      category = CRASH_LOOP, severity = CRITICAL,
      hint = ''Container is crashing repeatedly. Check exit code and last termination reason.''\<rparr>,
     \<lparr>pattern = alts [Lit ''ImagePullBackOff'', Lit ''ErrImagePull'', Lit ''ImagePullError''],
      category = IMAGE_PULL, severity = HIGH,
      hint = ''Unable to pull container image. Check image name/tag, registry auth, and network.''\<rparr>,
     \<lparr>pattern = Lit ''CreateContainerConfigError'',
      category = CONFIG_ERROR, severity = HIGH,
      hint = ''Container configuration error. Usually a missing Secret, ConfigMap, or volume mount.''\<rparr>,
     \<lparr>pattern = alts [seqs [Lit ''Readiness'', Star Space, Lit ''probe'', Star Space, Lit ''failed''],
                      Lit ''readinessProbe''],
      category = READINESS_PROBE, severity = MEDIUM,
      hint = ''Readiness probe failing '' @ em_dash @ '' pod won'' @ [CHR 0x27]
             @ ''t receive traffic. Check health endpoint and port.''\<rparr>,
     \<lparr>pattern = alts [seqs [Lit ''Liveness'', Star Space, Lit ''probe'', Star Space, Lit ''failed''],
                      Lit ''livenessProbe''],
      category = LIVENESS_PROBE, severity = HIGH,
      hint = ''Liveness probe failing '' @ em_dash
             @ '' kubelet will restart the container. Check health endpoint.''\<rparr>,
     \<lparr>pattern = alts [seqs [Lit ''exceeded'', Star Space, Lit ''quota''],
                      Lit ''ResourceQuota'',
                      seqs [Lit ''forbidden'', Star Dot, Lit ''quota'']],
      category = RESOURCE_QUOTA, severity = MEDIUM,
      hint = ''Resource quota exceeded. Request more quota or reduce resource requests.''\<rparr>,
     \<lparr>pattern = alts [Lit ''forbidden'', Lit ''Unauthorized'', Lit ''403'', Lit ''RBAC''],
      category = PERMISSION_DENIED, severity = HIGH,
      hint = ''Permission denied. Check RBAC roles, service account, and cluster role bindings.''\<rparr>,
     \<lparr>pattern = alts [seqs [Lit ''connection'', Star Space, Lit ''refused''],
                      seqs [Lit ''dial'', Star Space, Lit ''tcp'', Star Dot, Lit ''refused''],
                      Lit ''timeout'',
                      Lit ''ETIMEDOUT'',
                      seqs [Lit ''network'', Star Space, Lit ''unreachable'']],
      category = NETWORK_ERROR, severity = HIGH,
      hint = ''Network connectivity issue. Check service endpoints, DNS, security groups, and NACLs.''\<rparr>,
     \<lparr>pattern = alts [seqs [Lit ''state'', Star Space, Lit ''lock''],
                      seqs [Lit ''lock'', Star Space, Lit ''ID''],
                      seqs [Lit ''ConditionalCheckFailedException'', Star Dot, Lit ''terraform'']],
      category = TERRAFORM_STATE_LOCK, severity = MEDIUM,
      hint = ''Terraform state is locked. Check DynamoDB lock table or use force-unlock if safe.''\<rparr>,
     \<lparr>pattern = alts [seqs [Lit ''provider'', Star Dot, Lit ''error''],
                      Lit ''NoCredentialProviders'',
                      Lit ''ExpiredToken'',
                      Lit ''InvalidClientTokenId''],
      category = TERRAFORM_PROVIDER, severity = HIGH,
      hint = ''Terraform provider authentication failure. Check AWS credentials and assume-role config.''\<rparr>,
     \<lparr>pattern = alts [seqs [Lit ''exit'', Star Space, Lit ''code'', Star Space, One Digit19, Star Digit],
                      seqs [Lit ''Process'', Star Space, Lit ''completed'', Star Space, Lit ''with'',
                            Star Space, Lit ''exit'', Star Space, Lit ''code'', Star Space, One Digit19]],
      category = CI_CD_FAILURE, severity = MEDIUM,
      hint = ''Build step failed with a non-zero exit code. Check the failing command output.''\<rparr>,
     \<lparr>pattern = alts [seqs [Lit ''permission'', Star Space, Lit ''denied''], Lit ''EACCES''],
      category = PERMISSION_DENIED, severity = MEDIUM,
      hint = ''File/system permission denied. Check file ownership and process privileges.''\<rparr>
   ]"

section \<open>The classifier (\<open>classify_errors\<close>)\<close>

text \<open>The dictionary appended for an entry of the registry and its non-empty \<open>matches\<close>.\<close>

definition classification :: "entry \<Rightarrow> string list \<Rightarrow> dict" where
  "classification e matches =
     [(''category'', JStr (category_value (category e))),
      (''severity'', JStr (severity_value (severity e))),
      (''hint'', JStr (hint e)),
      (''matched_text'',
         if length matches = 1 then JStr (matches ! 0) else JArr (map JStr (take 3 matches))),
      (''match_count'', JInt (int (length matches)))]"

text \<open>
  The loop over the registry, with its two variables: the list \<open>classifications\<close> and the
  set \<open>seen_categories\<close>.
\<close>

fun scan :: "entry list \<Rightarrow> string \<Rightarrow> dict list \<Rightarrow> ErrorCategory set \<Rightarrow> dict list" where
  "scan [] text classifications seen_categories = classifications"
| "scan (e # es) text classifications seen_categories =
     (let matches = findall (pattern e) text in
      if matches \<noteq> [] \<and> category e \<notin> seen_categories
      then scan es text (classifications @ [classification e matches])
                (insert (category e) seen_categories)
      else scan es text classifications seen_categories)"

definition severity_order :: "(string \<times> nat) list" where
  "severity_order =
     [(severity_value CRITICAL, 0), (severity_value HIGH, 1), (severity_value MEDIUM, 2),
      (severity_value LOW, 3), (severity_value INFO, 4)]"

text \<open>
  The sort key \<open>severity_order.get(x["severity"], 5)\<close>. Every dictionary that the loop
  appends has the key \<open>severity\<close> with a string (lemma \<open>scan_has_severity\<close>), so the
  lookup \<open>x["severity"]\<close> cannot raise there.
\<close>

definition severity_rank :: "dict \<Rightarrow> nat" where
  "severity_rank x =
     (case map_of x ''severity'' of
        Some (JStr s) \<Rightarrow> (case map_of severity_order s of Some r \<Rightarrow> r | None \<Rightarrow> 5)
      | _ \<Rightarrow> 5)"

text \<open>\<open>list.sort(key=...)\<close> is stable, as the insertion sort \<open>sort_key\<close> is.\<close>

definition classify_errors :: "string \<Rightarrow> dict list" where
  "classify_errors text = sort_key severity_rank (scan ERROR_PATTERNS text [] {})"

text \<open>The dictionary that the loop records for an entry that matches \<open>text\<close>.\<close>

abbreviation recorded :: "string \<Rightarrow> entry \<Rightarrow> dict" where
  "recorded text e \<equiv> classification e (findall (pattern e) text)"


text \<open>
  The excerpts kept under \<open>matched_text\<close>: one string, or the strings of a list.
\<close>

fun excerpts :: "json \<Rightarrow> string list" where
  "excerpts (JStr s) = [s]"
| "excerpts (JArr xs) = [s. JStr s \<leftarrow> xs]"
| "excerpts _ = []"


section \<open>The document matcher (\<open>load_runbooks\<close>, \<open>search_runbooks\<close>)\<close>

text \<open>
  A loaded runbook is the dictionary with the keys \<open>filename\<close>, \<open>title\<close> and \<open>content\<close>.
\<close>

record runbook =
  filename :: string
  title :: string
  content :: string

text \<open>
  What \<open>load_runbooks\<close> reads and writes: the module variable \<open>_runbook_cache\<close>,
  whether the runbook directory exists, and the files that \<open>glob\<close> finds there, in the
  order in which it lists them, each with its text, or \<open>None\<close> when opening or reading
  it raises.
\<close>

record world =
  runbook_cache :: "runbook list"
  dir_exists :: bool
  md_files :: "(string \<times> string option) list"

text \<open>\<open>os.path.basename\<close>: what follows the last slash.\<close>

definition basename :: "string \<Rightarrow> string" where
  "basename filepath = last (split_on (CHR ''/'') [] filepath)"

text \<open>\<open>s.replace("#", "")\<close>: every \<open>#\<close> is removed.\<close>

definition remove_hashes :: "string \<Rightarrow> string" where
  "remove_hashes s = filter (\<lambda>c. c \<noteq> CHR ''#'') s"

text \<open>
  The loop over the files. A file that cannot be read is logged and skipped; a file that
  is read is appended to the cache.
\<close>

fun load_files :: "(string \<times> string option) list \<Rightarrow> runbook list \<Rightarrow> runbook list" where
  "load_files [] cache = cache"
| "load_files ((filepath, None) # files) cache = load_files files cache"
| "load_files ((filepath, Some text) # files) cache =
     load_files files
       (cache @ [\<lparr>filename = basename filepath,
                  title = strip (remove_hashes (split_on (CHR 0x0A) [] text ! 0)),
                  content = text\<rparr>])"

definition load_runbooks :: "world \<Rightarrow> runbook list \<times> world" where
  "load_runbooks w =
     (if runbook_cache w \<noteq> [] then (runbook_cache w, w)
      else if \<not> dir_exists w then ([], w)
      else (let cache = load_files (md_files w) (runbook_cache w)
            in (cache, w\<lparr>runbook_cache := cache\<rparr>)))"

text \<open>
  An entry of \<open>scored\<close>: the dictionary with the keys \<open>title\<close>, \<open>filename\<close>,
  \<open>relevance_score\<close> and \<open>summary\<close> (the first two written \<open>rb_title\<close> and
  \<open>rb_filename\<close> here, apart from the fields of a runbook). The score is the exact
  quotient. Python's float division rounds it; all scores of one search have the same
  denominator, so the rounded quotients are ordered and equal as the exact ones are
  (for a query of fewer than \<open>2^52\<close> words).
\<close>

record runbook_match =
  rb_title :: string
  rb_filename :: string
  relevance_score :: rat
  summary :: string

text \<open>\<open>sum(1 for word in query_words if word in content_lower)\<close>\<close>

definition count_matches :: "string set \<Rightarrow> string \<Rightarrow> nat" where
  "count_matches query_words content_lower =
     card (Set.filter (\<lambda>word. contains content_lower word) query_words)"

fun score_runbooks ::
  "runbook list \<Rightarrow> string set \<Rightarrow> runbook_match list \<Rightarrow> runbook_match list" where
  "score_runbooks [] query_words scored = scored"
| "score_runbooks (rb # runbooks) query_words scored =
     (let content_lower = lower (content rb);
          matches = count_matches query_words content_lower
      in if 0 < matches
         then score_runbooks runbooks query_words
                (scored @ [\<lparr>rb_title = title rb,
                            rb_filename = filename rb,
                            relevance_score =
                              min (of_nat matches / of_nat (max (card query_words) 1)) 1,
                            summary = take 200 (content rb) @ ''...''\<rparr>])
         else score_runbooks runbooks query_words scored)"

text \<open>
  \<open>scored.sort(key=..., reverse=True)\<close> keeps entries of equal score in their order, as
  the stable sort on the negated score does.
\<close>

definition search_runbooks :: "world \<Rightarrow> string \<Rightarrow> int \<Rightarrow> runbook_match list \<times> world" where
  "search_runbooks w query top_k =
     (let (runbooks, w') = load_runbooks w in
      if runbooks = [] then ([], w')
      else (let query_words = set (split (lower query));
                scored = score_runbooks runbooks query_words []
            in (slice_to (sort_key (\<lambda>x. - relevance_score x) scored) top_k, w')))"

text \<open>
  Follows the spec's words, for comparison with the title that \<open>load_runbooks\<close> stores:
  the first non-empty line, with the leading heading marks and the blanks around it
  stripped.
\<close>

definition spec_title :: "string \<Rightarrow> string" where
  "spec_title text =
     (case filter (\<lambda>line. strip line \<noteq> []) (split_on (CHR 0x0A) [] text) of
        [] \<Rightarrow> []
      | line # _ \<Rightarrow> strip (dropWhile (\<lambda>c. c = CHR ''#'') (lstrip line)))"

text \<open>
  Follows the spec's words, for comparison with the score that \<open>search_runbooks\<close>
  computes: the number of distinct lowercased query words that occur in the document,
  divided by the number of distinct query words, capped at 1. A word occurs in the
  document when it is a contiguous piece of the lowercased text.
\<close>

definition spec_score :: "string \<Rightarrow> runbook \<Rightarrow> rat" where
  "spec_score query rb =
     (let query_words = remdups (split (lower query)) in
      min (of_nat (length (filter (\<lambda>word. contains (lower (content rb)) word) query_words))
             / of_nat (length query_words)) 1)"

text \<open>A runbook directory of six files, one of them unreadable, before the first load.\<close>

definition example_world :: world where
  "example_world =
     \<lparr>runbook_cache = [], dir_exists = True,
      md_files =
        [(''/app/./runbooks/network.md'',
            Some (''# Network timeouts'' @ [CHR 0x0A] @ ''Check the pod DNS.'')),
         (''/app/./runbooks/locked.md'', None),
         (''/app/./runbooks/oomkilled.md'',
            Some (''## OOMKilled #1'' @ [CHR 0x0A] @ ''Raise the memory limit of the pod.'')),
         (''/app/./runbooks/crashloop.md'',
            Some ([CHR 0x0A] @ ''# CrashLoopBackOff'' @ [CHR 0x0A] @ ''Memory of the Pod.'')),
         (''/app/./runbooks/empty.md'', Some ''Nothing here''),
         (''/app/./runbooks/notes.md'', Some ''Pod notes'')]\<rparr>"

section \<open>Properties of the classifier\<close>

text \<open>
  What the loop computes: the dictionaries of a subsequence of the registry, one per
  category not seen before, each from the first matching entry of its category.
\<close>

lemma scan_spec:
  "\<exists>es'. scan es text cls seen = cls @ map (recorded text) es'
     \<and> subseq es' es
     \<and> distinct (map category es')
     \<and> (\<forall>e\<in>set es'. category e \<notin> seen \<and> findall (pattern e) text \<noteq> [])
     \<and> (\<forall>e\<in>set es. findall (pattern e) text \<noteq> [] \<and> category e \<notin> seen \<longrightarrow>
           (\<exists>e0\<in>set es'.
              List.find (\<lambda>x. category x = category e \<and> findall (pattern x) text \<noteq> []) es
                = Some e0))"
proof (induction es arbitrary: cls seen)
  case Nil
  show ?case by simp
next
  case (Cons a es)
  show ?case
  proof (cases "findall (pattern a) text \<noteq> [] \<and> category a \<notin> seen")
    case True
    from Cons.IH [of "cls @ [recorded text a]" "insert (category a) seen"]
    obtain es' where
      s: "scan es text (cls @ [recorded text a]) (insert (category a) seen)
            = (cls @ [recorded text a]) @ map (recorded text) es'"
      and sub: "subseq es' es"
      and d: "distinct (map category es')"
      and m: "\<forall>e\<in>set es'. category e \<notin> insert (category a) seen \<and> findall (pattern e) text \<noteq> []"
      and f: "\<forall>e\<in>set es. findall (pattern e) text \<noteq> [] \<and> category e \<notin> insert (category a) seen \<longrightarrow>
           (\<exists>e0\<in>set es'.
              List.find (\<lambda>x. category x = category e \<and> findall (pattern x) text \<noteq> []) es
                = Some e0)"
      by blast
    have 1: "scan (a # es) text cls seen = cls @ map (recorded text) (a # es')"
      using True s by simp
    have 2: "subseq (a # es') (a # es)" using sub by simp
    have 3: "distinct (map category (a # es'))" using d m by auto
    have 4: "\<forall>e\<in>set (a # es'). category e \<notin> seen \<and> findall (pattern e) text \<noteq> []"
      using True m by auto
    have 5: "\<forall>e\<in>set (a # es). findall (pattern e) text \<noteq> [] \<and> category e \<notin> seen \<longrightarrow>
           (\<exists>e0\<in>set (a # es').
              List.find (\<lambda>x. category x = category e \<and> findall (pattern x) text \<noteq> []) (a # es)
                = Some e0)"
    proof (intro ballI impI)
      fix e assume e: "e \<in> set (a # es)"
        and h: "findall (pattern e) text \<noteq> [] \<and> category e \<notin> seen"
      show "\<exists>e0\<in>set (a # es').
              List.find (\<lambda>x. category x = category e \<and> findall (pattern x) text \<noteq> []) (a # es)
                = Some e0"
      proof (cases "category a = category e")
        case True
        with \<open>findall (pattern a) text \<noteq> [] \<and> category a \<notin> seen\<close> show ?thesis by simp
      next
        case False
        with e h have "e \<in> set es" and "category e \<notin> insert (category a) seen" by auto
        with f h obtain e0 where "e0 \<in> set es'"
          and "List.find (\<lambda>x. category x = category e \<and> findall (pattern x) text \<noteq> []) es = Some e0"
          by blast
        with False show ?thesis by auto
      qed
    qed
    from 1 2 3 4 5 show ?thesis by blast
  next
    case False
    from Cons.IH [of cls seen]
    obtain es' where
      s: "scan es text cls seen = cls @ map (recorded text) es'"
      and sub: "subseq es' es"
      and d: "distinct (map category es')"
      and m: "\<forall>e\<in>set es'. category e \<notin> seen \<and> findall (pattern e) text \<noteq> []"
      and f: "\<forall>e\<in>set es. findall (pattern e) text \<noteq> [] \<and> category e \<notin> seen \<longrightarrow>
           (\<exists>e0\<in>set es'.
              List.find (\<lambda>x. category x = category e \<and> findall (pattern x) text \<noteq> []) es
                = Some e0)"
      by blast
    have 1: "scan (a # es) text cls seen = cls @ map (recorded text) es'"
      using False s by auto
    have 2: "subseq es' (a # es)" using sub by (rule list_emb_Cons)
    have 5: "\<forall>e\<in>set (a # es). findall (pattern e) text \<noteq> [] \<and> category e \<notin> seen \<longrightarrow>
           (\<exists>e0\<in>set es'.
              List.find (\<lambda>x. category x = category e \<and> findall (pattern x) text \<noteq> []) (a # es)
                = Some e0)"
    proof (intro ballI impI)
      fix e assume e: "e \<in> set (a # es)"
        and h: "findall (pattern e) text \<noteq> [] \<and> category e \<notin> seen"
      have na: "\<not> (category a = category e \<and> findall (pattern a) text \<noteq> [])"
        using False h by auto
      then have "e \<noteq> a" using h by auto
      with e have "e \<in> set es" by simp
      with f h obtain e0 where "e0 \<in> set es'"
          and "List.find (\<lambda>x. category x = category e \<and> findall (pattern x) text \<noteq> []) es = Some e0"
        by blast
      with na show "\<exists>e0\<in>set es'.
              List.find (\<lambda>x. category x = category e \<and> findall (pattern x) text \<noteq> []) (a # es)
                = Some e0" by auto
    qed
    from 1 2 d m 5 show ?thesis by blast
  qed
qed


lemma inj_category_value: "category_value a = category_value b \<Longrightarrow> a = b"
  by (cases a; cases b; simp)

lemma recorded_category:
  "map_of (classification e ms) ''category'' = Some (JStr (category_value (category e)))"
  by (simp add: classification_def)

lemma recorded_rank:
  "severity_rank (classification e ms) =
     (case severity e of CRITICAL \<Rightarrow> 0 | HIGH \<Rightarrow> 1 | MEDIUM \<Rightarrow> 2 | LOW \<Rightarrow> 3 | INFO \<Rightarrow> 4)"
  by (cases "severity e") (simp_all add: severity_rank_def classification_def severity_order_def)

lemma scan_has_severity:
  assumes "c \<in> set (scan ERROR_PATTERNS text [] {})"
  shows "\<exists>s. map_of c ''severity'' = Some (JStr s)"
proof -
  from scan_spec [of ERROR_PATTERNS "text" "[]" "{}"] assms
  obtain e where "c = recorded text e" by auto
  then show ?thesis by (simp add: classification_def)
qed

lemma severity_rank_of_name:
  "severity_rank [(''severity'', JStr s)] =
     (if s = ''CRITICAL'' then 0 else if s = ''HIGH'' then 1 else if s = ''MEDIUM'' then 2
      else if s = ''LOW'' then 3 else if s = ''INFO'' then 4 else 5)"
  by (simp add: severity_rank_def severity_order_def)

text \<open>
  C1. For every input text the list returned by \<open>classify_errors\<close> is sorted ascending by
  severity rank (CRITICAL 0, HIGH 1, MEDIUM 2, LOW 3, INFO 4, any other severity 5), and
  the entries of one rank stand in the order in which the loop over the registry recorded
  them, which is the order of the registry.
\<close>

theorem classify_errors_sorted_stable:
  "sorted (map severity_rank (classify_errors text))
   \<and> (\<forall>k. filter (\<lambda>c. severity_rank c = k) (classify_errors text)
            = filter (\<lambda>c. severity_rank c = k) (scan ERROR_PATTERNS text [] {}))
   \<and> (\<exists>es. subseq es ERROR_PATTERNS \<and> scan ERROR_PATTERNS text [] {} = map (recorded text) es)
   \<and> (\<forall>e ms. severity_rank (classification e ms) =
         (case severity e of CRITICAL \<Rightarrow> 0 | HIGH \<Rightarrow> 1 | MEDIUM \<Rightarrow> 2 | LOW \<Rightarrow> 3 | INFO \<Rightarrow> 4))
   \<and> (\<forall>s. severity_rank [(''severity'', JStr s)] =
         (if s = ''CRITICAL'' then 0 else if s = ''HIGH'' then 1 else if s = ''MEDIUM'' then 2
          else if s = ''LOW'' then 3 else if s = ''INFO'' then 4 else 5))"
proof -
  have a: "sorted (map severity_rank (classify_errors text))"
    by (simp add: classify_errors_def)
  have b: "\<forall>k. filter (\<lambda>c. severity_rank c = k) (classify_errors text)
            = filter (\<lambda>c. severity_rank c = k) (scan ERROR_PATTERNS text [] {})"
    by (simp add: classify_errors_def sort_key_stable)
  have c: "\<exists>es. subseq es ERROR_PATTERNS \<and> scan ERROR_PATTERNS text [] {} = map (recorded text) es"
    using scan_spec [of ERROR_PATTERNS "text" "[]" "{}"] by auto
  from a b c recorded_rank severity_rank_of_name show ?thesis by blast
qed

theorem classify_errors_sorted_stable_witness:
  "sorted (map severity_rank (classify_errors ''readinessProbe 403 timeout''))
   \<and> map (\<lambda>c. map_of c ''category'') (scan ERROR_PATTERNS ''readinessProbe 403 timeout'' [] {})
       = [Some (JStr ''ReadinessProbeFailure''), Some (JStr ''PermissionDenied''),
          Some (JStr ''NetworkError'')]
   \<and> map (\<lambda>c. (map_of c ''category'', map_of c ''severity'', severity_rank c))
         (classify_errors ''readinessProbe 403 timeout'')
       = [(Some (JStr ''PermissionDenied''), Some (JStr ''HIGH''), 1),
          (Some (JStr ''NetworkError''), Some (JStr ''HIGH''), 1),
          (Some (JStr ''ReadinessProbeFailure''), Some (JStr ''MEDIUM''), 2)]"
proof -
  have a: "sorted (map severity_rank (classify_errors ''readinessProbe 403 timeout''))"
    using classify_errors_sorted_stable [of "''readinessProbe 403 timeout''"] by blast
  have b: "map (\<lambda>c. map_of c ''category'') (scan ERROR_PATTERNS ''readinessProbe 403 timeout'' [] {})
       = [Some (JStr ''ReadinessProbeFailure''), Some (JStr ''PermissionDenied''),
          Some (JStr ''NetworkError'')]"
    by code_simp
  have c: "map (\<lambda>c. (map_of c ''category'', map_of c ''severity'', severity_rank c))
         (classify_errors ''readinessProbe 403 timeout'')
       = [(Some (JStr ''PermissionDenied''), Some (JStr ''HIGH''), 1),
          (Some (JStr ''NetworkError''), Some (JStr ''HIGH''), 1),
          (Some (JStr ''ReadinessProbeFailure''), Some (JStr ''MEDIUM''), 2)]"
    by code_simp
  from a b c show ?thesis by blast
qed


lemma recorded_category_eq:
  "map_of (recorded text a) ''category'' = map_of (recorded text b) ''category''
     \<longleftrightarrow> category a = category b"
  by (auto simp: recorded_category dest: inj_category_value)

lemma filter_sort_key_single:
  assumes "filter P xs = [x]"
  shows "filter P (sort_key f xs) = [x]"
proof -
  have "mset (filter P (sort_key f xs)) = mset (filter P xs)"
    by simp
  with assms have "mset (filter P (sort_key f xs)) = {#x#}" by simp
  then show ?thesis by (metis mset_single_iff_right mset.simps(1) mset.simps(2))
qed

lemma filter_category_single:
  assumes d: "distinct (map category es)" and m: "e0 \<in> set es"
  shows "filter (\<lambda>c. map_of c ''category'' = Some (JStr (category_value (category e0))))
           (map (recorded text) es) = [recorded text e0]"
  using d m
proof (induction es)
  case Nil
  then show ?case by simp
next
  case (Cons a es)
  show ?case
  proof (cases "a = e0")
    case True
    from Cons.prems True have "category e0 \<notin> category ` set es" by simp
    then have ne: "\<forall>x\<in>set es. category x \<noteq> category e0" by (metis imageI)
    have "filter (\<lambda>c. map_of c ''category'' = Some (JStr (category_value (category e0))))
           (map (recorded text) es) = []"
      using ne
      by (auto simp: filter_empty_conv recorded_category dest!: inj_category_value)
    with True show ?thesis by (simp add: recorded_category)
  next
    case False
    with Cons.prems have "e0 \<in> set es" and "category a \<noteq> category e0" by auto
    with Cons show ?thesis by (auto simp: recorded_category dest: inj_category_value)
  qed
qed

lemma classification_severity:
  "map_of (classification e ms) ''severity'' = Some (JStr (severity_value (severity e)))"
  by (simp add: classification_def)

lemma classification_hint:
  "map_of (classification e ms) ''hint'' = Some (JStr (hint e))"
  by (simp add: classification_def)

text \<open>
  C2. For every input text \<open>classify_errors\<close> returns at most one classification per
  category, and for every entry of the registry that matches, the one classification of
  its category is the dictionary of the first entry of the registry with that category
  that matches: under \<open>severity\<close> and \<open>hint\<close> it holds the severity and the hint of that
  first entry.
\<close>

theorem classify_errors_one_per_category:
  "distinct (map (\<lambda>c. map_of c ''category'') (classify_errors text))
   \<and> (\<forall>e\<in>set ERROR_PATTERNS. findall (pattern e) text \<noteq> [] \<longrightarrow>
        (\<exists>e0. List.find (\<lambda>x. category x = category e \<and> findall (pattern x) text \<noteq> [])
                 ERROR_PATTERNS = Some e0
           \<and> filter (\<lambda>c. map_of c ''category'' = Some (JStr (category_value (category e))))
                 (classify_errors text) = [recorded text e0]
           \<and> map_of (recorded text e0) ''category'' = Some (JStr (category_value (category e)))
           \<and> map_of (recorded text e0) ''severity'' = Some (JStr (severity_value (severity e0)))
           \<and> map_of (recorded text e0) ''hint'' = Some (JStr (hint e0))))"
proof -
  from scan_spec [of ERROR_PATTERNS "text" "[]" "{}"]
  obtain es where s: "scan ERROR_PATTERNS text [] {} = map (recorded text) es"
    and d: "distinct (map category es)"
    and f: "\<forall>e\<in>set ERROR_PATTERNS. findall (pattern e) text \<noteq> [] \<and> category e \<notin> {} \<longrightarrow>
           (\<exists>e0\<in>set es.
              List.find (\<lambda>x. category x = category e \<and> findall (pattern x) text \<noteq> [])
                ERROR_PATTERNS = Some e0)"
    by auto
  have "distinct (map (\<lambda>c. map_of c ''category'') (map (recorded text) es))"
    using d
    by (simp add: distinct_map comp_def inj_on_def recorded_category)
       (auto dest: inj_category_value)
  then have "distinct (map (\<lambda>c. map_of c ''category'') (scan ERROR_PATTERNS text [] {}))"
    using s by simp
  then have a: "distinct (map (\<lambda>c. map_of c ''category'') (classify_errors text))"
    by (simp add: classify_errors_def distinct_map)
  have b: "\<forall>e\<in>set ERROR_PATTERNS. findall (pattern e) text \<noteq> [] \<longrightarrow>
        (\<exists>e0. List.find (\<lambda>x. category x = category e \<and> findall (pattern x) text \<noteq> [])
                 ERROR_PATTERNS = Some e0
           \<and> filter (\<lambda>c. map_of c ''category'' = Some (JStr (category_value (category e))))
                 (classify_errors text) = [recorded text e0]
           \<and> map_of (recorded text e0) ''category'' = Some (JStr (category_value (category e)))
           \<and> map_of (recorded text e0) ''severity'' = Some (JStr (severity_value (severity e0)))
           \<and> map_of (recorded text e0) ''hint'' = Some (JStr (hint e0)))"
  proof (intro ballI impI)
    fix e assume e: "e \<in> set ERROR_PATTERNS" and h: "findall (pattern e) text \<noteq> []"
    with f obtain e0 where e0: "e0 \<in> set es"
      and fi: "List.find (\<lambda>x. category x = category e \<and> findall (pattern x) text \<noteq> [])
                 ERROR_PATTERNS = Some e0"
      by auto
    from fi have ce: "category e0 = category e" by (auto simp: find_Some_iff)
    from filter_category_single [OF d e0, of "text"] s ce
    have "filter (\<lambda>c. map_of c ''category'' = Some (JStr (category_value (category e))))
            (scan ERROR_PATTERNS text [] {}) = [recorded text e0]"
      by simp
    then have fl: "filter (\<lambda>c. map_of c ''category'' = Some (JStr (category_value (category e))))
            (classify_errors text) = [recorded text e0]"
      unfolding classify_errors_def by (rule filter_sort_key_single)
    have k1: "map_of (recorded text e0) ''category'' = Some (JStr (category_value (category e)))"
      unfolding ce [symmetric] by (rule recorded_category)
    have k2: "map_of (recorded text e0) ''severity'' = Some (JStr (severity_value (severity e0)))"
      by (rule classification_severity)
    have k3: "map_of (recorded text e0) ''hint'' = Some (JStr (hint e0))"
      by (rule classification_hint)
    from fi fl k1 k2 k3
    show "\<exists>e0. List.find (\<lambda>x. category x = category e \<and> findall (pattern x) text \<noteq> [])
                 ERROR_PATTERNS = Some e0
           \<and> filter (\<lambda>c. map_of c ''category'' = Some (JStr (category_value (category e))))
                 (classify_errors text) = [recorded text e0]
           \<and> map_of (recorded text e0) ''category'' = Some (JStr (category_value (category e)))
           \<and> map_of (recorded text e0) ''severity'' = Some (JStr (severity_value (severity e0)))
           \<and> map_of (recorded text e0) ''hint'' = Some (JStr (hint e0))"
      by (intro exI [of _ e0] conjI)
  qed
  from a b show ?thesis by (rule conjI)
qed

theorem classify_errors_one_per_category_witness:
  "ERROR_PATTERNS ! 12 \<in> set ERROR_PATTERNS
   \<and> findall (pattern (ERROR_PATTERNS ! 7)) ''403 permission denied readinessProbe'' = [''403'']
   \<and> findall (pattern (ERROR_PATTERNS ! 12)) ''403 permission denied readinessProbe''
       = [''permission denied'']
   \<and> category (ERROR_PATTERNS ! 7) = category (ERROR_PATTERNS ! 12)
   \<and> (severity (ERROR_PATTERNS ! 7), severity (ERROR_PATTERNS ! 12)) = (HIGH, MEDIUM)
   \<and> hint (ERROR_PATTERNS ! 12)
       = ''File/system permission denied. Check file ownership and process privileges.''
   \<and> filter (\<lambda>c. map_of c ''category'' = Some (JStr ''PermissionDenied''))
         (classify_errors ''403 permission denied readinessProbe'')
       = [recorded ''403 permission denied readinessProbe'' (ERROR_PATTERNS ! 7)]
   \<and> map_of (recorded ''403 permission denied readinessProbe'' (ERROR_PATTERNS ! 7)) ''severity''
       = Some (JStr ''HIGH'')
   \<and> map_of (recorded ''403 permission denied readinessProbe'' (ERROR_PATTERNS ! 7)) ''hint''
       = Some (JStr ''Permission denied. Check RBAC roles, service account, and cluster role bindings.'')
   \<and> map (\<lambda>c. (map_of c ''category'', map_of c ''severity''))
         (classify_errors ''403 permission denied readinessProbe'')
       = [(Some (JStr ''PermissionDenied''), Some (JStr ''HIGH'')),
          (Some (JStr ''ReadinessProbeFailure''), Some (JStr ''MEDIUM''))]"
proof -
  have h1: "ERROR_PATTERNS ! 12 \<in> set ERROR_PATTERNS" by code_simp
  have h2: "findall (pattern (ERROR_PATTERNS ! 12)) ''403 permission denied readinessProbe''
              = [''permission denied'']"
    by code_simp
  have h2': "findall (pattern (ERROR_PATTERNS ! 12)) ''403 permission denied readinessProbe'' \<noteq> []"
    by code_simp
  have h3: "findall (pattern (ERROR_PATTERNS ! 7)) ''403 permission denied readinessProbe'' = [''403'']"
    by code_simp
  have h4: "category (ERROR_PATTERNS ! 7) = category (ERROR_PATTERNS ! 12)" by code_simp
  have h4': "(severity (ERROR_PATTERNS ! 7), severity (ERROR_PATTERNS ! 12)) = (HIGH, MEDIUM)"
    by code_simp
  have h4'': "hint (ERROR_PATTERNS ! 12)
       = ''File/system permission denied. Check file ownership and process privileges.''"
    by code_simp
  have h5: "category_value (category (ERROR_PATTERNS ! 12)) = ''PermissionDenied''" by code_simp
  have h6: "List.find (\<lambda>x. category x = category (ERROR_PATTERNS ! 12)
                \<and> findall (pattern x) ''403 permission denied readinessProbe'' \<noteq> []) ERROR_PATTERNS
            = Some (ERROR_PATTERNS ! 7)"
    by code_simp
  have h7: "severity_value (severity (ERROR_PATTERNS ! 7)) = ''HIGH''" by code_simp
  have h8: "hint (ERROR_PATTERNS ! 7)
       = ''Permission denied. Check RBAC roles, service account, and cluster role bindings.''"
    by code_simp
  have h9: "map (\<lambda>c. (map_of c ''category'', map_of c ''severity''))
         (classify_errors ''403 permission denied readinessProbe'')
       = [(Some (JStr ''PermissionDenied''), Some (JStr ''HIGH'')),
          (Some (JStr ''ReadinessProbeFailure''), Some (JStr ''MEDIUM''))]"
    by code_simp
  from classify_errors_one_per_category [of "''403 permission denied readinessProbe''"]
  have "\<forall>e\<in>set ERROR_PATTERNS. findall (pattern e) ''403 permission denied readinessProbe'' \<noteq> [] \<longrightarrow>
        (\<exists>e0. List.find (\<lambda>x. category x = category e
                   \<and> findall (pattern x) ''403 permission denied readinessProbe'' \<noteq> []) ERROR_PATTERNS = Some e0
           \<and> filter (\<lambda>c. map_of c ''category'' = Some (JStr (category_value (category e))))
                 (classify_errors ''403 permission denied readinessProbe'')
               = [recorded ''403 permission denied readinessProbe'' e0]
           \<and> map_of (recorded ''403 permission denied readinessProbe'' e0) ''category''
               = Some (JStr (category_value (category e)))
           \<and> map_of (recorded ''403 permission denied readinessProbe'' e0) ''severity''
               = Some (JStr (severity_value (severity e0)))
           \<and> map_of (recorded ''403 permission denied readinessProbe'' e0) ''hint''
               = Some (JStr (hint e0)))"
    by (rule conjunct2)
  from this h1
  have "findall (pattern (ERROR_PATTERNS ! 12)) ''403 permission denied readinessProbe'' \<noteq> [] \<longrightarrow>
        (\<exists>e0. List.find (\<lambda>x. category x = category (ERROR_PATTERNS ! 12)
                   \<and> findall (pattern x) ''403 permission denied readinessProbe'' \<noteq> []) ERROR_PATTERNS = Some e0
           \<and> filter (\<lambda>c. map_of c ''category''
                       = Some (JStr (category_value (category (ERROR_PATTERNS ! 12)))))
                 (classify_errors ''403 permission denied readinessProbe'')
               = [recorded ''403 permission denied readinessProbe'' e0]
           \<and> map_of (recorded ''403 permission denied readinessProbe'' e0) ''category''
               = Some (JStr (category_value (category (ERROR_PATTERNS ! 12))))
           \<and> map_of (recorded ''403 permission denied readinessProbe'' e0) ''severity''
               = Some (JStr (severity_value (severity e0)))
           \<and> map_of (recorded ''403 permission denied readinessProbe'' e0) ''hint''
               = Some (JStr (hint e0)))"
    by (rule bspec)
  from this h2' obtain e0 where
    f: "List.find (\<lambda>x. category x = category (ERROR_PATTERNS ! 12)
                   \<and> findall (pattern x) ''403 permission denied readinessProbe'' \<noteq> []) ERROR_PATTERNS = Some e0"
    and g: "filter (\<lambda>c. map_of c ''category''
                       = Some (JStr (category_value (category (ERROR_PATTERNS ! 12)))))
                 (classify_errors ''403 permission denied readinessProbe'')
               = [recorded ''403 permission denied readinessProbe'' e0]"
    and sv: "map_of (recorded ''403 permission denied readinessProbe'' e0) ''severity''
               = Some (JStr (severity_value (severity e0)))"
    and hn: "map_of (recorded ''403 permission denied readinessProbe'' e0) ''hint''
               = Some (JStr (hint e0))"
    by blast
  from f [symmetric] h6 have "Some e0 = Some (ERROR_PATTERNS ! 7)" by (rule trans)
  then have e0: "e0 = ERROR_PATTERNS ! 7" by (simp only: option.inject)
  from g have g': "filter (\<lambda>c. map_of c ''category'' = Some (JStr ''PermissionDenied''))
         (classify_errors ''403 permission denied readinessProbe'')
       = [recorded ''403 permission denied readinessProbe'' (ERROR_PATTERNS ! 7)]"
    unfolding h5 e0 .
  from sv have sv': "map_of (recorded ''403 permission denied readinessProbe'' (ERROR_PATTERNS ! 7)) ''severity''
       = Some (JStr ''HIGH'')"
    unfolding e0 h7 .
  from hn have hn': "map_of (recorded ''403 permission denied readinessProbe'' (ERROR_PATTERNS ! 7)) ''hint''
       = Some (JStr ''Permission denied. Check RBAC roles, service account, and cluster role bindings.'')"
    unfolding e0 h8 .
  from h1 h3 h2 h4 h4' h4'' g' sv' hn' h9 show ?thesis by (intro conjI)
qed

lemma excerpts_matched_text:
  "ms \<noteq> [] \<Longrightarrow>
   excerpts (if length ms = 1 then JStr (ms ! 0) else JArr (map JStr (take 3 ms))) = take 3 ms"
proof (cases "length ms = 1")
  case True
  then obtain m where "ms = [m]" by (cases ms) auto
  then show ?thesis by simp
next
  case False
  have "[s. JStr s \<leftarrow> map JStr xs] = xs" for xs :: "string list"
    by (induction xs) auto
  with False show ?thesis by simp
qed
lemma classification_matched_text:
  "map_of (classification e ms) ''matched_text'' =
     Some (if length ms = 1 then JStr (ms ! 0) else JArr (map JStr (take 3 ms)))"
  by (simp add: classification_def)
lemma classification_match_count:
  "map_of (classification e ms) ''match_count'' = Some (JInt (int (length ms)))"
  by (simp add: classification_def)
lemma classify_errors_recorded:
  assumes "c \<in> set (classify_errors text)"
  shows "\<exists>e\<in>set ERROR_PATTERNS. findall (pattern e) text \<noteq> [] \<and> c = recorded text e"
proof -
  from assms have c: "c \<in> set (scan ERROR_PATTERNS text [] {})" by (simp add: classify_errors_def)
  from scan_spec [of ERROR_PATTERNS "text" "[]" "{}"]
  obtain es where s: "scan ERROR_PATTERNS text [] {} = map (recorded text) es"
    and sub: "subseq es ERROR_PATTERNS"
    and m: "\<forall>e\<in>set es. category e \<notin> {} \<and> findall (pattern e) text \<noteq> []"
    by auto
  from c s obtain e where e: "e \<in> set es" and ce: "c = recorded text e" by auto
  from list_emb_set [OF sub e] have mem: "e \<in> set ERROR_PATTERNS" by blast
  from m e have ne: "findall (pattern e) text \<noteq> []" by blast
  from mem ne ce show ?thesis by blast
qed

lemma classify_errors_first_recorded:
  assumes "e \<in> set ERROR_PATTERNS"
    and "List.find (\<lambda>x. category x = category e \<and> findall (pattern x) text \<noteq> [])
           ERROR_PATTERNS = Some e"
  shows "recorded text e \<in> set (classify_errors text) \<and> findall (pattern e) text \<noteq> []"
proof -
  from assms(2) have ne: "findall (pattern e) text \<noteq> []" by (auto simp: find_Some_iff)
  from scan_spec [of ERROR_PATTERNS "text" "[]" "{}"]
  obtain es where s: "scan ERROR_PATTERNS text [] {} = map (recorded text) es"
    and f: "\<forall>e\<in>set ERROR_PATTERNS. findall (pattern e) text \<noteq> [] \<and> category e \<notin> {} \<longrightarrow>
           (\<exists>e0\<in>set es.
              List.find (\<lambda>x. category x = category e \<and> findall (pattern x) text \<noteq> [])
                ERROR_PATTERNS = Some e0)"
    by auto
  from f assms(1) ne obtain e0 where e0: "e0 \<in> set es"
    and fi: "List.find (\<lambda>x. category x = category e \<and> findall (pattern x) text \<noteq> [])
                ERROR_PATTERNS = Some e0"
    by auto
  from fi assms(2) have "e0 = e" by simp
  with e0 s have "recorded text e \<in> set (scan ERROR_PATTERNS text [] {})" by simp
  then have "recorded text e \<in> set (classify_errors text)" by (simp add: classify_errors_def)
  then show ?thesis using ne by (rule conjI)
qed

text \<open>
  C8 (as amended). For every input text and every entry of the registry that is the first
  matching entry of its category, \<open>classify_errors\<close> returns the dictionary of that entry;
  it stores the first three matches of the entry's pattern in the order of their
  occurrence (all of them when there are fewer), repeated texts included, a single match
  as a bare string and otherwise a list, and its \<open>match_count\<close> is the number of all
  matches of that pattern. Every classification returned is the dictionary of a matching
  entry, with the same contents.
\<close>

theorem classification_excerpts:
  "(\<forall>e\<in>set ERROR_PATTERNS.
      List.find (\<lambda>x. category x = category e \<and> findall (pattern x) text \<noteq> []) ERROR_PATTERNS
        = Some e \<longrightarrow>
      recorded text e \<in> set (classify_errors text)
    \<and> map_of (recorded text e) ''category'' = Some (JStr (category_value (category e)))
    \<and> map_of (recorded text e) ''matched_text'' =
        Some (if length (findall (pattern e) text) = 1 then JStr (findall (pattern e) text ! 0)
              else JArr (map JStr (take 3 (findall (pattern e) text))))
    \<and> excerpts (get (recorded text e) ''matched_text'' JNull) = take 3 (findall (pattern e) text)
    \<and> map_of (recorded text e) ''match_count''
        = Some (JInt (int (length (findall (pattern e) text)))))
   \<and> (\<forall>c\<in>set (classify_errors text). \<exists>e\<in>set ERROR_PATTERNS.
      findall (pattern e) text \<noteq> []
    \<and> c = recorded text e
    \<and> map_of c ''matched_text'' =
        Some (if length (findall (pattern e) text) = 1 then JStr (findall (pattern e) text ! 0)
              else JArr (map JStr (take 3 (findall (pattern e) text))))
    \<and> excerpts (get c ''matched_text'' JNull) = take 3 (findall (pattern e) text)
    \<and> map_of c ''match_count'' = Some (JInt (int (length (findall (pattern e) text)))))"
proof (rule conjI)
  show "\<forall>e\<in>set ERROR_PATTERNS.
      List.find (\<lambda>x. category x = category e \<and> findall (pattern x) text \<noteq> []) ERROR_PATTERNS
        = Some e \<longrightarrow>
      recorded text e \<in> set (classify_errors text)
    \<and> map_of (recorded text e) ''category'' = Some (JStr (category_value (category e)))
    \<and> map_of (recorded text e) ''matched_text'' =
        Some (if length (findall (pattern e) text) = 1 then JStr (findall (pattern e) text ! 0)
              else JArr (map JStr (take 3 (findall (pattern e) text))))
    \<and> excerpts (get (recorded text e) ''matched_text'' JNull) = take 3 (findall (pattern e) text)
    \<and> map_of (recorded text e) ''match_count''
        = Some (JInt (int (length (findall (pattern e) text))))"
  proof (intro ballI impI)
    fix e assume mem: "e \<in> set ERROR_PATTERNS"
      and fi: "List.find (\<lambda>x. category x = category e \<and> findall (pattern x) text \<noteq> [])
                 ERROR_PATTERNS = Some e"
    from classify_errors_first_recorded [OF mem fi]
    have r: "recorded text e \<in> set (classify_errors text)"
      and ne: "findall (pattern e) text \<noteq> []" by blast+
    have ct: "map_of (recorded text e) ''category'' = Some (JStr (category_value (category e)))"
      by (rule recorded_category)
    have mt: "map_of (recorded text e) ''matched_text'' =
        Some (if length (findall (pattern e) text) = 1 then JStr (findall (pattern e) text ! 0)
              else JArr (map JStr (take 3 (findall (pattern e) text))))"
      by (rule classification_matched_text)
    have "get (recorded text e) ''matched_text'' JNull =
          (if length (findall (pattern e) text) = 1 then JStr (findall (pattern e) text ! 0)
           else JArr (map JStr (take 3 (findall (pattern e) text))))"
      unfolding get_def mt by simp
    then have ex: "excerpts (get (recorded text e) ''matched_text'' JNull)
                     = take 3 (findall (pattern e) text)"
      using excerpts_matched_text [OF ne] by (simp only:)
    have mc: "map_of (recorded text e) ''match_count''
                = Some (JInt (int (length (findall (pattern e) text))))"
      by (rule classification_match_count)
    from r ct mt ex mc
    show "recorded text e \<in> set (classify_errors text)
    \<and> map_of (recorded text e) ''category'' = Some (JStr (category_value (category e)))
    \<and> map_of (recorded text e) ''matched_text'' =
        Some (if length (findall (pattern e) text) = 1 then JStr (findall (pattern e) text ! 0)
              else JArr (map JStr (take 3 (findall (pattern e) text))))
    \<and> excerpts (get (recorded text e) ''matched_text'' JNull) = take 3 (findall (pattern e) text)
    \<and> map_of (recorded text e) ''match_count''
        = Some (JInt (int (length (findall (pattern e) text))))"
      by (intro conjI)
  qed
next
  show "\<forall>c\<in>set (classify_errors text). \<exists>e\<in>set ERROR_PATTERNS.
      findall (pattern e) text \<noteq> []
    \<and> c = recorded text e
    \<and> map_of c ''matched_text'' =
        Some (if length (findall (pattern e) text) = 1 then JStr (findall (pattern e) text ! 0)
              else JArr (map JStr (take 3 (findall (pattern e) text))))
    \<and> excerpts (get c ''matched_text'' JNull) = take 3 (findall (pattern e) text)
    \<and> map_of c ''match_count'' = Some (JInt (int (length (findall (pattern e) text))))"
  proof
    fix c assume "c \<in> set (classify_errors text)"
    from classify_errors_recorded [OF this]
    obtain e where mem: "e \<in> set ERROR_PATTERNS" and ne: "findall (pattern e) text \<noteq> []"
      and ce: "c = recorded text e"
      by blast
    have mt: "map_of c ''matched_text'' =
          Some (if length (findall (pattern e) text) = 1 then JStr (findall (pattern e) text ! 0)
                else JArr (map JStr (take 3 (findall (pattern e) text))))"
      unfolding ce by (rule classification_matched_text)
    have "get c ''matched_text'' JNull =
            (if length (findall (pattern e) text) = 1 then JStr (findall (pattern e) text ! 0)
             else JArr (map JStr (take 3 (findall (pattern e) text))))"
      unfolding get_def mt by simp
    then have ex: "excerpts (get c ''matched_text'' JNull) = take 3 (findall (pattern e) text)"
      using excerpts_matched_text [OF ne] by (simp only:)
    have mc: "map_of c ''match_count'' = Some (JInt (int (length (findall (pattern e) text))))"
      unfolding ce by (rule classification_match_count)
    from mem ne ce mt ex mc
    show "\<exists>e\<in>set ERROR_PATTERNS.
        findall (pattern e) text \<noteq> []
      \<and> c = recorded text e
      \<and> map_of c ''matched_text'' =
          Some (if length (findall (pattern e) text) = 1 then JStr (findall (pattern e) text ! 0)
                else JArr (map JStr (take 3 (findall (pattern e) text))))
      \<and> excerpts (get c ''matched_text'' JNull) = take 3 (findall (pattern e) text)
      \<and> map_of c ''match_count'' = Some (JInt (int (length (findall (pattern e) text))))"
      by (intro bexI [of _ e] conjI)
  qed
qed

theorem classification_excerpts_counterexample:
  "classify_errors ''403 403'' =
     [[(''category'', JStr ''PermissionDenied''), (''severity'', JStr ''HIGH''),
       (''hint'', JStr ''Permission denied. Check RBAC roles, service account, and cluster role bindings.''),
       (''matched_text'', JArr [JStr ''403'', JStr ''403'']),
       (''match_count'', JInt 2)]]
   \<and> \<not> distinct (excerpts (get (hd (classify_errors ''403 403'')) ''matched_text'' JNull))"
  by code_simp

theorem classification_excerpts_witness:
  "ERROR_PATTERNS ! 7 \<in> set ERROR_PATTERNS
   \<and> List.find (\<lambda>x. category x = category (ERROR_PATTERNS ! 7)
                  \<and> findall (pattern x) ''readinessProbe 403 403 403 403'' \<noteq> []) ERROR_PATTERNS
       = Some (ERROR_PATTERNS ! 7)
   \<and> recorded ''readinessProbe 403 403 403 403'' (ERROR_PATTERNS ! 7)
       \<in> set (classify_errors ''readinessProbe 403 403 403 403'')
   \<and> excerpts (get (recorded ''readinessProbe 403 403 403 403'' (ERROR_PATTERNS ! 7))
                 ''matched_text'' JNull)
       = take 3 (findall (pattern (ERROR_PATTERNS ! 7)) ''readinessProbe 403 403 403 403'')
   \<and> findall (pattern (ERROR_PATTERNS ! 7)) ''readinessProbe 403 403 403 403''
       = [''403'', ''403'', ''403'', ''403'']
   \<and> map (\<lambda>c. (map_of c ''category'', map_of c ''matched_text'', map_of c ''match_count''))
         (classify_errors ''readinessProbe 403 403 403 403'')
       = [(Some (JStr ''PermissionDenied''), Some (JArr [JStr ''403'', JStr ''403'', JStr ''403'']),
           Some (JInt 4)),
          (Some (JStr ''ReadinessProbeFailure''), Some (JStr ''readinessProbe''), Some (JInt 1))]"
proof -
  have h1: "ERROR_PATTERNS ! 7 \<in> set ERROR_PATTERNS" by code_simp
  have h2: "List.find (\<lambda>x. category x = category (ERROR_PATTERNS ! 7)
                  \<and> findall (pattern x) ''readinessProbe 403 403 403 403'' \<noteq> []) ERROR_PATTERNS
       = Some (ERROR_PATTERNS ! 7)"
    by code_simp
  have h3: "findall (pattern (ERROR_PATTERNS ! 7)) ''readinessProbe 403 403 403 403''
       = [''403'', ''403'', ''403'', ''403'']"
    by code_simp
  have h4: "map (\<lambda>c. (map_of c ''category'', map_of c ''matched_text'', map_of c ''match_count''))
         (classify_errors ''readinessProbe 403 403 403 403'')
       = [(Some (JStr ''PermissionDenied''), Some (JArr [JStr ''403'', JStr ''403'', JStr ''403'']),
           Some (JInt 4)),
          (Some (JStr ''ReadinessProbeFailure''), Some (JStr ''readinessProbe''), Some (JInt 1))]"
    by code_simp
  note t = classification_excerpts [of "''readinessProbe 403 403 403 403''", THEN conjunct1,
              THEN bspec, OF h1, THEN mp, OF h2]
  from h1 h2 t [THEN conjunct1]
    t [THEN conjunct2, THEN conjunct2, THEN conjunct2, THEN conjunct1] h3 h4
  show ?thesis by (intro conjI)
qed

section \<open>Properties of the document matcher\<close>

lemma split_on_first: "split_on sep cur s ! 0 = cur @ takeWhile (\<lambda>c. c \<noteq> sep) s"
  by (induction s arbitrary: cur) auto

lemma load_files_spec:
  "load_files files cache =
     cache @ [\<lparr>filename = basename p,
               title = strip (filter (\<lambda>c. c \<noteq> CHR ''#'') (takeWhile (\<lambda>c. c \<noteq> CHR 0x0A) t)),
               content = t\<rparr>. (p, Some t) \<leftarrow> files]"
  by (induction files cache rule: load_files.induct)
     (simp_all add: split_on_first remove_hashes_def)

text \<open>
  C9 (as amended). For every loaded runbook the stored title is the first line of the
  document, that is the text before its first line break, also when that line is empty,
  with every \<open>#\<close> removed, not only the leading ones, and the whitespace around the rest
  stripped. On a first load from an existing directory the loaded runbooks are those of
  the readable files, in the order of the listing, each with the name of its file and
  its whole text; a later load answers the cache, whose titles are the ones stored.
\<close>

theorem load_runbooks_title:
  "(runbook_cache w = [] \<and> dir_exists w \<longrightarrow>
      fst (load_runbooks w) =
        [\<lparr>filename = basename p,
          title = strip (filter (\<lambda>c. c \<noteq> CHR ''#'') (takeWhile (\<lambda>c. c \<noteq> CHR 0x0A) t)),
          content = t\<rparr>. (p, Some t) \<leftarrow> md_files w])
   \<and> ((\<forall>rb\<in>set (runbook_cache w).
          title rb = strip (filter (\<lambda>c. c \<noteq> CHR ''#'') (takeWhile (\<lambda>c. c \<noteq> CHR 0x0A) (content rb))))
        \<longrightarrow> (\<forall>rb\<in>set (fst (load_runbooks w)).
          title rb = strip (filter (\<lambda>c. c \<noteq> CHR ''#'') (takeWhile (\<lambda>c. c \<noteq> CHR 0x0A) (content rb)))))"
proof (intro conjI impI)
  assume "runbook_cache w = [] \<and> dir_exists w"
  then show "fst (load_runbooks w) =
        [\<lparr>filename = basename p,
          title = strip (filter (\<lambda>c. c \<noteq> CHR ''#'') (takeWhile (\<lambda>c. c \<noteq> CHR 0x0A) t)),
          content = t\<rparr>. (p, Some t) \<leftarrow> md_files w]"
    by (simp add: load_runbooks_def Let_def load_files_spec)
next
  assume inv: "\<forall>rb\<in>set (runbook_cache w).
          title rb = strip (filter (\<lambda>c. c \<noteq> CHR ''#'') (takeWhile (\<lambda>c. c \<noteq> CHR 0x0A) (content rb)))"
  show "\<forall>rb\<in>set (fst (load_runbooks w)).
          title rb = strip (filter (\<lambda>c. c \<noteq> CHR ''#'') (takeWhile (\<lambda>c. c \<noteq> CHR 0x0A) (content rb)))"
  proof (cases "runbook_cache w = []")
    case True
    then show ?thesis
      by (auto simp: load_runbooks_def Let_def load_files_spec split: option.splits)
  next
    case False
    with inv show ?thesis by (simp add: load_runbooks_def)
  qed
qed

theorem load_runbooks_title_counterexample:
  "map title (fst (load_runbooks
      \<lparr>runbook_cache = [], dir_exists = True,
       md_files = [(''/app/./runbooks/crashloop.md'', Some (CHR 0x0A # ''# CrashLoopBackOff'')),
                   (''/app/./runbooks/issue.md'', Some ''# Issue #12 notes'')]\<rparr>))
     = [[], ''Issue 12 notes'']
   \<and> spec_title (CHR 0x0A # ''# CrashLoopBackOff'') = ''CrashLoopBackOff''
   \<and> spec_title ''# Issue #12 notes'' = ''Issue #12 notes''"
  by code_simp

theorem load_runbooks_title_witness:
  "(runbook_cache example_world = [] \<and> dir_exists example_world)
   \<and> fst (load_runbooks example_world) =
        [\<lparr>filename = basename p,
          title = strip (filter (\<lambda>c. c \<noteq> CHR ''#'') (takeWhile (\<lambda>c. c \<noteq> CHR 0x0A) t)),
          content = t\<rparr>. (p, Some t) \<leftarrow> md_files example_world]
   \<and> list_all (\<lambda>rb. title rb =
          strip (filter (\<lambda>c. c \<noteq> CHR ''#'') (takeWhile (\<lambda>c. c \<noteq> CHR 0x0A) (content rb))))
        (fst (load_runbooks example_world))
   \<and> map (\<lambda>rb. (filename rb, title rb)) (fst (load_runbooks example_world))
       = [(''network.md'', ''Network timeouts''), (''oomkilled.md'', ''OOMKilled 1''),
          (''crashloop.md'', []), (''empty.md'', ''Nothing here''), (''notes.md'', ''Pod notes'')]"
proof -
  have h0: "runbook_cache example_world = [] \<and> dir_exists example_world"
    by (simp add: example_world_def)
  have h: "\<forall>rb\<in>set (runbook_cache example_world).
       title rb = strip (filter (\<lambda>c. c \<noteq> CHR ''#'') (takeWhile (\<lambda>c. c \<noteq> CHR 0x0A) (content rb)))"
    by (simp add: example_world_def)
  have v: "map (\<lambda>rb. (filename rb, title rb)) (fst (load_runbooks example_world))
       = [(''network.md'', ''Network timeouts''), (''oomkilled.md'', ''OOMKilled 1''),
          (''crashloop.md'', []), (''empty.md'', ''Nothing here''), (''notes.md'', ''Pod notes'')]"
    by code_simp
  note t = load_runbooks_title [of example_world]
  have a: "list_all (\<lambda>rb. title rb =
          strip (filter (\<lambda>c. c \<noteq> CHR ''#'') (takeWhile (\<lambda>c. c \<noteq> CHR 0x0A) (content rb))))
        (fst (load_runbooks example_world))"
    unfolding list_all_iff by (rule t [THEN conjunct2, THEN mp, OF h])
  show ?thesis
    by (rule conjI [OF h0 conjI [OF t [THEN conjunct1, THEN mp, OF h0] conjI [OF a v]]])
qed

lemma count_le: "count_matches (set ws) cl \<le> card (set ws)"
  unfolding count_matches_def by (rule card_mono) auto

lemma count_pos_card: "0 < count_matches (set ws) cl \<Longrightarrow> max (card (set ws)) 1 = card (set ws)"
  using count_le [of ws cl] by simp

lemma count_collect:
  "count_matches (set ws) cl = length (filter (\<lambda>word. contains cl word) (remdups ws))"
proof -
  have "Set.filter (\<lambda>word. contains cl word) (set ws) = set (filter (\<lambda>word. contains cl word) ws)"
    by auto
  then have "count_matches (set ws) cl = length (remdups (filter (\<lambda>word. contains cl word) ws))"
    unfolding count_matches_def by (simp add: length_remdups_card_conv)
  then show ?thesis by (simp add: remdups_filter)
qed

lemma card_words: "card (set ws) = length (remdups ws)"
  by (simp add: length_remdups_card_conv)

lemma score_eq:
  assumes "0 < count_matches (set (split (lower query))) (lower (content rb))"
  shows "min (of_nat (count_matches (set (split (lower query))) (lower (content rb)))
              / of_nat (max (card (set (split (lower query)))) 1)) (1::rat) = spec_score query rb"
  using count_pos_card [OF assms]
  by (simp add: spec_score_def Let_def count_collect card_words)

lemma score_eq_Suc:
  assumes "0 < count_matches (set (split (lower query))) (lower (content rb))"
  shows "min (of_nat (count_matches (set (split (lower query))) (lower (content rb)))
              / of_nat (max (card (set (split (lower query)))) (Suc 0))) (1::rat) = spec_score query rb"
  using score_eq [OF assms] by simp

lemma spec_score_pos:
  "0 < spec_score query rb \<longleftrightarrow> 0 < count_matches (set (split (lower query))) (lower (content rb))"
proof -
  let ?n = "count_matches (set (split (lower query))) (lower (content rb))"
  let ?d = "card (set (split (lower query)))"
  have s: "spec_score query rb = min (of_nat ?n / of_nat ?d) 1"
    unfolding spec_score_def Let_def count_collect card_words ..
  show ?thesis
  proof (cases "0 < ?n")
    case True
    with count_le [of "split (lower query)" "lower (content rb)"] have "0 < ?d" by simp
    with True have "0 < (of_nat ?n / of_nat ?d :: rat)" by simp
    with True show ?thesis unfolding s by simp
  next
    case False
    then show ?thesis unfolding s by simp
  qed
qed

lemma score_runbooks_spec:
  "score_runbooks rbs (set (split (lower query))) scored =
     scored @ map (\<lambda>rb. \<lparr>rb_title = title rb, rb_filename = filename rb,
                          relevance_score = spec_score query rb,
                          summary = take 200 (content rb) @ ''...''\<rparr>)
                  (filter (\<lambda>rb. 0 < spec_score query rb) rbs)"
proof (induction rbs arbitrary: scored)
  case Nil
  then show ?case by simp
next
  case (Cons rb rbs)
  show ?case
  proof (cases "0 < count_matches (set (split (lower query))) (lower (content rb))")
    case True
    then show ?thesis
      using Cons [of "scored @ [\<lparr>rb_title = title rb, rb_filename = filename rb,
                          relevance_score = spec_score query rb,
                          summary = take 200 (content rb) @ ''...''\<rparr>]"]
      by (simp add: Let_def score_eq_Suc spec_score_pos)
  next
    case False
    then show ?thesis using Cons [of scored] by (simp add: Let_def spec_score_pos)
  qed
qed

lemma search_runbooks_eq:
  "0 < top_k \<Longrightarrow> fst (search_runbooks w query top_k) =
     take (nat top_k) (sort_key (\<lambda>x. - relevance_score x)
        (map (\<lambda>rb. \<lparr>rb_title = title rb, rb_filename = filename rb,
                          relevance_score = spec_score query rb,
                          summary = take 200 (content rb) @ ''...''\<rparr>)
                  (filter (\<lambda>rb. 0 < spec_score query rb) (fst (load_runbooks w)))))"
  by (cases "load_runbooks w")
     (simp add: search_runbooks_def Let_def slice_to_def score_runbooks_spec [of _ query "[]", simplified])

text \<open>
  C7. For every state of the cache and the directory, every query and every positive
  \<open>top_k\<close>, \<open>search_runbooks\<close> returns at most \<open>top_k\<close> entries, sorted by descending
  score, none with the score 0. They are the first \<open>top_k\<close> entries of a ranking of the
  loaded runbooks that is sorted by descending score and in which the entries of any one
  score are those of the runbooks with that score (and a score above 0), in the order in
  which the runbooks were loaded. The score of a runbook is \<open>spec_score\<close>: the number of
  distinct lowercased query words that occur in its lowercased text, divided by the number
  of distinct query words, capped at 1.
\<close>

theorem search_runbooks_ranked:
  assumes "0 < top_k"
  shows "length (fst (search_runbooks w query top_k)) \<le> nat top_k
   \<and> sorted_wrt (\<lambda>a b. relevance_score b \<le> relevance_score a) (fst (search_runbooks w query top_k))
   \<and> (\<forall>m\<in>set (fst (search_runbooks w query top_k)). 0 < relevance_score m)
   \<and> (\<exists>ranked. fst (search_runbooks w query top_k) = take (nat top_k) ranked
        \<and> sorted_wrt (\<lambda>a b. relevance_score b \<le> relevance_score a) ranked
        \<and> (\<forall>s. filter (\<lambda>m. relevance_score m = s) ranked =
                map (\<lambda>rb. \<lparr>rb_title = title rb, rb_filename = filename rb,
                           relevance_score = spec_score query rb,
                           summary = take 200 (content rb) @ ''...''\<rparr>)
                    (filter (\<lambda>rb. 0 < spec_score query rb \<and> spec_score query rb = s)
                       (fst (load_runbooks w)))))"
proof -
  let ?entry = "\<lambda>rb. \<lparr>rb_title = title rb, rb_filename = filename rb,
                           relevance_score = spec_score query rb,
                           summary = take 200 (content rb) @ ''...''\<rparr>"
  let ?scored = "map ?entry (filter (\<lambda>rb. 0 < spec_score query rb) (fst (load_runbooks w)))"
  let ?ranked = "sort_key (\<lambda>x. - relevance_score x) ?scored"
  have r: "fst (search_runbooks w query top_k) = take (nat top_k) ?ranked"
    by (rule search_runbooks_eq [OF assms])
  have a: "length (fst (search_runbooks w query top_k)) \<le> nat top_k"
    unfolding r by simp
  have "sorted (map (\<lambda>x. - relevance_score x) ?ranked)" by (rule sorted_sort_key)
  then have b0: "sorted_wrt (\<lambda>a b. relevance_score b \<le> relevance_score a) ?ranked"
    by (simp add: sorted_map)
  then have b: "sorted_wrt (\<lambda>a b. relevance_score b \<le> relevance_score a) (fst (search_runbooks w query top_k))"
    unfolding r by (rule sorted_wrt_take)
  have "\<forall>m\<in>set ?ranked. 0 < relevance_score m" by auto
  then have c: "\<forall>m\<in>set (fst (search_runbooks w query top_k)). 0 < relevance_score m"
    unfolding r by (meson in_set_takeD)
  have d: "filter (\<lambda>m. relevance_score m = s) ?ranked =
                map ?entry (filter (\<lambda>rb. 0 < spec_score query rb \<and> spec_score query rb = s)
                       (fst (load_runbooks w)))" for s
  proof -
    have "filter (\<lambda>m. relevance_score m = s) ?ranked = filter (\<lambda>m. - relevance_score m = - s) ?ranked"
      by simp
    also have "\<dots> = filter (\<lambda>m. - relevance_score m = - s) ?scored"
      by (rule sort_key_stable)
    also have "\<dots> = map ?entry (filter (\<lambda>rb. 0 < spec_score query rb \<and> spec_score query rb = s)
                       (fst (load_runbooks w)))"
      by (simp add: filter_map comp_def conj_commute)
    finally show ?thesis .
  qed
  from a b c r b0 d show ?thesis by blast
qed

theorem search_runbooks_ranked_witness:
  "(0::int) < 3
   \<and> length (fst (search_runbooks example_world ''Pod MEMORY limit pod'' 3)) \<le> nat 3
   \<and> sorted_wrt (\<lambda>a b. relevance_score b \<le> relevance_score a)
        (fst (search_runbooks example_world ''Pod MEMORY limit pod'' 3))
   \<and> list_all (\<lambda>m. 0 < relevance_score m)
        (fst (search_runbooks example_world ''Pod MEMORY limit pod'' 3))
   \<and> map (\<lambda>rb. (filename rb, spec_score ''Pod MEMORY limit pod'' rb))
        (fst (load_runbooks example_world))
       = [(''network.md'', 1 / 3), (''oomkilled.md'', 1), (''crashloop.md'', 2 / 3),
          (''empty.md'', 0), (''notes.md'', 1 / 3)]
   \<and> map (\<lambda>m. (rb_filename m, relevance_score m))
        (fst (search_runbooks example_world ''Pod MEMORY limit pod'' 3))
       = [(''oomkilled.md'', 1), (''crashloop.md'', 2 / 3), (''network.md'', 1 / 3)]
   \<and> map (\<lambda>m. (rb_filename m, rb_title m, relevance_score m, summary m))
        (fst (search_runbooks example_world ''Pod MEMORY limit pod'' 5))
       = [(''oomkilled.md'', ''OOMKilled 1'', 1,
             ''## OOMKilled #1'' @ [CHR 0x0A] @ ''Raise the memory limit of the pod....''),
          (''crashloop.md'', [], 2 / 3,
             [CHR 0x0A] @ ''# CrashLoopBackOff'' @ [CHR 0x0A] @ ''Memory of the Pod....''),
          (''network.md'', ''Network timeouts'', 1 / 3,
             ''# Network timeouts'' @ [CHR 0x0A] @ ''Check the pod DNS....''),
          (''notes.md'', ''Pod notes'', 1 / 3, ''Pod notes...'')]"
proof -
  have h: "(0::int) < 3" by simp
  have u: "map (\<lambda>rb. (filename rb, spec_score ''Pod MEMORY limit pod'' rb))
        (fst (load_runbooks example_world))
       = [(''network.md'', 1 / 3), (''oomkilled.md'', 1), (''crashloop.md'', 2 / 3),
          (''empty.md'', 0), (''notes.md'', 1 / 3)]"
    by code_simp
  have v: "map (\<lambda>m. (rb_filename m, relevance_score m))
        (fst (search_runbooks example_world ''Pod MEMORY limit pod'' 3))
       = [(''oomkilled.md'', 1), (''crashloop.md'', 2 / 3), (''network.md'', 1 / 3)]"
    by code_simp
  have v2: "map (\<lambda>m. (rb_filename m, rb_title m, relevance_score m, summary m))
        (fst (search_runbooks example_world ''Pod MEMORY limit pod'' 5))
       = [(''oomkilled.md'', ''OOMKilled 1'', 1,
             ''## OOMKilled #1'' @ [CHR 0x0A] @ ''Raise the memory limit of the pod....''),
          (''crashloop.md'', [], 2 / 3,
             [CHR 0x0A] @ ''# CrashLoopBackOff'' @ [CHR 0x0A] @ ''Memory of the Pod....''),
          (''network.md'', ''Network timeouts'', 1 / 3,
             ''# Network timeouts'' @ [CHR 0x0A] @ ''Check the pod DNS....''),
          (''notes.md'', ''Pod notes'', 1 / 3, ''Pod notes...'')]"
    by code_simp
  note t = search_runbooks_ranked [OF h, of example_world "''Pod MEMORY limit pod''"]
  have p: "list_all (\<lambda>m. 0 < relevance_score m)
        (fst (search_runbooks example_world ''Pod MEMORY limit pod'' 3))"
    unfolding list_all_iff by (rule t [THEN conjunct2, THEN conjunct2, THEN conjunct1])
  from h t [THEN conjunct1] t [THEN conjunct2, THEN conjunct1] p u v v2
  show ?thesis by (intro conjI)
qed

end
